theory Spec2Isabelle
  imports Main "HOL-Library.Sublist"
begin

section \<open>The local files navigation pane of the Markdown viewer\<close>

text \<open>
  A shallow embedding of \<^verbatim>\<open>widgets/navigation_panes/local_files.py\<close>: the entry
  filter \<^verbatim>\<open>FilteredDirectoryTree.filter_paths\<close> and the pane \<^verbatim>\<open>LocalFiles\<close>
  with its operations \<^verbatim>\<open>compose\<close>, \<^verbatim>\<open>chdir\<close>, \<^verbatim>\<open>set_focus_within\<close> and
  \<^verbatim>\<open>on_directory_tree_file_selected\<close>.
\<close>

subsection \<open>Paths\<close>

text \<open>
  A \<^verbatim>\<open>pathlib.Path\<close> on a POSIX system, as \<^verbatim>\<open>pathlib\<close> holds it: its root (empty
  for a relative path, one or two slashes otherwise) and the components after it.
\<close>

datatype path = PosixPath (path_root: string) (path_tail: "string list")

text \<open>\<^verbatim>\<open>path.name\<close>: the final component, the empty string when there is none.\<close>

definition name :: "path \<Rightarrow> string" where
  "name p = (if path_tail p = [] then [] else last (path_tail p))"

text \<open>\<^verbatim>\<open>s.startswith(prefix)\<close>, that is \<^verbatim>\<open>s[:len(prefix)] == prefix\<close>.\<close>

definition startswith :: "string \<Rightarrow> string \<Rightarrow> bool" where
  "startswith s pre = (take (length pre) s = pre)"

subsection \<open>The file system and its errors\<close>

text \<open>
  What \<^verbatim>\<open>stat\<close> says of a path: a directory, a regular file, another kind of entry
  (socket, device, ...), nothing there (also a broken symbolic link), or access denied.
\<close>

datatype stat = Directory | RegularFile | Special | Missing | Denied

type_synonym filesystem = "path \<Rightarrow> stat"

text \<open>
  The exceptions that leave the functions of this file: the \<^verbatim>\<open>PermissionError\<close> of
  a file-system check, which the filter does not catch, and the \<^verbatim>\<open>NoMatches\<close> of
  \<^verbatim>\<open>query_one\<close> when no widget matches.
\<close>

datatype error = PermissionError | NoMatches

text \<open>
  \<^verbatim>\<open>path.is_dir()\<close> and \<^verbatim>\<open>path.is_file()\<close>: \<^verbatim>\<open>False\<close> for a path that does not
  exist or is of another kind, an exception for one that may not be examined.
\<close>

definition is_dir :: "filesystem \<Rightarrow> path \<Rightarrow> error + bool" where
  "is_dir fs p =
     (case fs p of
        Directory \<Rightarrow> Inr True
      | Denied \<Rightarrow> Inl PermissionError
      | _ \<Rightarrow> Inr False)"

definition is_file :: "filesystem \<Rightarrow> path \<Rightarrow> error + bool" where
  "is_file fs p =
     (case fs p of
        RegularFile \<Rightarrow> Inr True
      | Denied \<Rightarrow> Inl PermissionError
      | _ \<Rightarrow> Inr False)"

subsection \<open>The entry filter\<close>

text \<open>
  The condition of the comprehension in \<^verbatim>\<open>filter_paths\<close>,
  \<^verbatim>\<open>not path.name.startswith(".") and path.is_dir() or (path.is_file() and maybe_markdown(path))\<close>,
  evaluated on one path as Python does: \<^verbatim>\<open>and\<close> binds tighter than \<^verbatim>\<open>or\<close>, and
  both stop at the first operand that decides them. The function \<^verbatim>\<open>maybe_markdown\<close>
  lives in another module; it is the parameter \<open>maybe_markdown\<close>. The result is the
  truth value together with the list of paths that \<^verbatim>\<open>maybe_markdown\<close> was called on.
\<close>

definition filter_cond :: "filesystem \<Rightarrow> (path \<Rightarrow> bool) \<Rightarrow> path \<Rightarrow> error + (bool \<times> path list)" where
  "filter_cond fs maybe_markdown p =
     (case (if \<not> startswith (name p) ''.'' then is_dir fs p else Inr False) of
        Inl e \<Rightarrow> Inl e
      | Inr True \<Rightarrow> Inr (True, [])
      | Inr False \<Rightarrow>
          (case is_file fs p of
             Inl e \<Rightarrow> Inl e
           | Inr False \<Rightarrow> Inr (False, [])
           | Inr True \<Rightarrow> Inr (maybe_markdown p, [p])))"

text \<open>
  The comprehension itself: the paths are visited in order, an exception ends the run,
  and a path is kept when its condition is true. The second component collects the
  calls of \<^verbatim>\<open>maybe_markdown\<close>.
\<close>

fun filter_paths_traced ::
  "filesystem \<Rightarrow> (path \<Rightarrow> bool) \<Rightarrow> path list \<Rightarrow> error + (path list \<times> path list)" where
  "filter_paths_traced fs maybe_markdown [] = Inr ([], [])"
| "filter_paths_traced fs maybe_markdown (p # paths) =
     (case filter_cond fs maybe_markdown p of
        Inl e \<Rightarrow> Inl e
      | Inr (keep, called) \<Rightarrow>
          (case filter_paths_traced fs maybe_markdown paths of
             Inl e \<Rightarrow> Inl e
           | Inr (kept, calls) \<Rightarrow> Inr (if keep then p # kept else kept, called @ calls)))"

text \<open>\<^verbatim>\<open>FilteredDirectoryTree.filter_paths\<close>: the list the comprehension builds.\<close>

definition filter_paths :: "filesystem \<Rightarrow> (path \<Rightarrow> bool) \<Rightarrow> path list \<Rightarrow> error + path list" where
  "filter_paths fs maybe_markdown paths =
     (case filter_paths_traced fs maybe_markdown paths of
        Inl e \<Rightarrow> Inl e
      | Inr (kept, calls) \<Rightarrow> Inr kept)"

text \<open>The value of the condition on a path that may be examined.\<close>

definition shown :: "filesystem \<Rightarrow> (path \<Rightarrow> bool) \<Rightarrow> path \<Rightarrow> bool" where
  "shown fs maybe_markdown p =
     (\<not> startswith (name p) ''.'' \<and> fs p = Directory \<or> fs p = RegularFile \<and> maybe_markdown p)"

subsection \<open>Path-like values, locations and messages\<close>

text \<open>
  What the toolkit hands to \<^verbatim>\<open>Path(...)\<close> and to the constructor of a directory
  tree: a string or a path object.
\<close>

datatype pathlike = Str string | PathObj path

text \<open>
  \<^verbatim>\<open>posixpath.splitroot\<close> without the drive, which is always empty: a leading slash
  is the root, exactly two leading slashes are a root of their own.
\<close>

definition splitroot :: "string \<Rightarrow> string \<times> string" where
  "splitroot s =
     (if take 1 s \<noteq> ''/'' then ([], s)
      else if take 1 (drop 1 s) \<noteq> ''/'' \<or> take 1 (drop 2 s) = ''/'' then (''/'', drop 1 s)
      else (''//'', drop 2 s))"

text \<open>\<^verbatim>\<open>s.split(sep)\<close> for a separator of one character.\<close>

fun str_split :: "char \<Rightarrow> string \<Rightarrow> string list" where
  "str_split sep [] = [[]]"
| "str_split sep (c # cs) =
     (if c = sep then [] # str_split sep cs
      else (case str_split sep cs of
              [] \<Rightarrow> [[c]]
            | w # ws \<Rightarrow> (c # w) # ws))"

text \<open>
  The constructor \<^verbatim>\<open>Path(...)\<close>: a path object is taken as it is, a string is split
  at its slashes, empty components and \<^verbatim>\<open>.\<close> dropped.
\<close>

fun Path :: "pathlike \<Rightarrow> path" where
  "Path (PathObj p) = p"
| "Path (Str s) =
     (case splitroot s of
        (r, rel) \<Rightarrow> PosixPath r (filter (\<lambda>x. x \<noteq> [] \<and> x \<noteq> ''.'') (str_split CHR ''/'' rel)))"

datatype url = URL string

text \<open>The type \<^verbatim>\<open>Path | URL\<close> of a location.\<close>

datatype location = LocalPath path | RemoteURL url

text \<open>\<^verbatim>\<open>LocalFiles.Goto\<close>: the message that asks the viewer to go to a location.\<close>

datatype message = Goto (location: location)

text \<open>
  \<^verbatim>\<open>DirectoryTree.FileSelected\<close>: the path of the selected file, and whether
  \<^verbatim>\<open>stop()\<close> has been called on the event.
\<close>

record file_selected =
  event_path :: pathlike
  stopped :: bool

definition stop :: "file_selected \<Rightarrow> file_selected" where
  "stop event = event\<lparr>stopped := True\<rparr>"

subsection \<open>Widgets and the pane\<close>

datatype widget_class = Widget | DirectoryTree | FilteredDirectoryTree

text \<open>
  A widget: the identity of the object, its class, and, for a tree, the path it was
  constructed with.
\<close>

record widget =
  wid :: nat
  cls :: widget_class
  tree_path :: pathlike

text \<open>
  \<^verbatim>\<open>FilteredDirectoryTree\<close> is a subclass of \<^verbatim>\<open>DirectoryTree\<close>, and every class is
  a subclass of \<^verbatim>\<open>Widget\<close>.
\<close>

definition isinstance :: "widget \<Rightarrow> widget_class \<Rightarrow> bool" where
  "isinstance w c =
     (cls w = c \<or> c = Widget \<or> cls w = FilteredDirectoryTree \<and> c = DirectoryTree)"

text \<open>
  The pane: its title, the widgets mounted in it in order, the widgets that have been
  removed from it, the identity the next constructed widget gets, the identity of the
  widget that has the keyboard focus, and the messages posted so far.
\<close>

record pane =
  title :: string
  children :: "widget list"
  removed :: "widget list"
  next_wid :: nat
  focused :: "nat option"
  posted :: "message list"

text \<open>\<^verbatim>\<open>LocalFiles.__init__\<close>: a pane titled \<^verbatim>\<open>Local\<close>, nothing mounted yet.\<close>

definition init :: pane where
  "init = \<lparr>title = ''Local'', children = [], removed = [], next_wid = 0,
           focused = None, posted = []\<rparr>"

text \<open>Constructing \<^verbatim>\<open>FilteredDirectoryTree(path)\<close>: a new object.\<close>

definition new_tree :: "pathlike \<Rightarrow> pane \<Rightarrow> widget \<times> pane" where
  "new_tree p s =
     (\<lparr>wid = next_wid s, cls = FilteredDirectoryTree, tree_path = p\<rparr>,
      s\<lparr>next_wid := Suc (next_wid s)\<rparr>)"

text \<open>
  The operations of the Textual toolkit that the pane calls, as Textual documents them:
  \<^verbatim>\<open>mount\<close> adds a widget after the mounted ones; \<^verbatim>\<open>remove\<close> detaches a widget,
  which loses the focus if it had it; \<^verbatim>\<open>focus\<close> gives a widget the keyboard focus;
  \<^verbatim>\<open>post_message\<close> queues a message; \<^verbatim>\<open>query_one\<close> is the first mounted widget
  that is an instance of the class asked for, and raises \<^verbatim>\<open>NoMatches\<close> when there
  is none. The list \<open>removed\<close> is a history the toolkit does not keep: it records
  which objects have been detached, so that a stale tree can be told from the mounted
  one.
\<close>

definition mount :: "widget \<Rightarrow> pane \<Rightarrow> pane" where
  "mount w s = s\<lparr>children := children s @ [w]\<rparr>"

definition remove_widget :: "widget \<Rightarrow> pane \<Rightarrow> pane" where
  "remove_widget w s =
     s\<lparr>children := filter (\<lambda>v. wid v \<noteq> wid w) (children s),
       removed := removed s @ [w],
       focused := (if focused s = Some (wid w) then None else focused s)\<rparr>"

definition focus :: "widget \<Rightarrow> pane \<Rightarrow> pane" where
  "focus w s = s\<lparr>focused := Some (wid w)\<rparr>"

definition post_message :: "message \<Rightarrow> pane \<Rightarrow> pane" where
  "post_message m s = s\<lparr>posted := posted s @ [m]\<rparr>"

definition query_one :: "widget_class \<Rightarrow> pane \<Rightarrow> error + widget" where
  "query_one c s =
     (case filter (\<lambda>w. isinstance w c) (children s) of
        [] \<Rightarrow> Inl NoMatches
      | w # ws \<Rightarrow> Inr w)"

subsection \<open>The operations of the pane\<close>

text \<open>
  \<^verbatim>\<open>getenv\<close> on an environment, and Python's \<^verbatim>\<open>x or default\<close> on its result:
  \<^verbatim>\<open>None\<close> and the empty string are both false.
\<close>

definition getenv :: "(string \<rightharpoonup> string) \<Rightarrow> string \<Rightarrow> string option" where
  "getenv env var = env var"

definition or_default :: "string option \<Rightarrow> string \<Rightarrow> string" where
  "or_default x d = (case x of None \<Rightarrow> d | Some v \<Rightarrow> if v = [] then d else v)"

text \<open>\<^verbatim>\<open>LocalFiles.compose\<close>: yields one filtered tree.\<close>

definition compose :: "(string \<rightharpoonup> string) \<Rightarrow> pane \<Rightarrow> widget list \<times> pane" where
  "compose env s =
     (case new_tree (Str (or_default (getenv env ''HOME'') ''.'')) s of
        (tree, s') \<Rightarrow> ([tree], s'))"

text \<open>Creation of the pane: the toolkit mounts what \<^verbatim>\<open>compose\<close> yields.\<close>

definition create :: "(string \<rightharpoonup> string) \<Rightarrow> pane" where
  "create env = (case compose env init of (ws, s) \<Rightarrow> fold mount ws s)"

text \<open>\<^verbatim>\<open>LocalFiles.chdir\<close>: remove the mounted tree, then mount a new one.\<close>

definition chdir :: "pane \<Rightarrow> path \<Rightarrow> error + pane" where
  "chdir s p =
     (case query_one FilteredDirectoryTree s of
        Inl e \<Rightarrow> Inl e
      | Inr old \<Rightarrow>
          (case new_tree (PathObj p) (remove_widget old s) of
             (tree, s') \<Rightarrow> Inr (mount tree s')))"

text \<open>\<^verbatim>\<open>LocalFiles.set_focus_within\<close>.\<close>

definition set_focus_within :: "pane \<Rightarrow> error + pane" where
  "set_focus_within s =
     (case query_one DirectoryTree s of
        Inl e \<Rightarrow> Inl e
      | Inr tree \<Rightarrow> Inr (focus tree s))"

text \<open>
  \<^verbatim>\<open>LocalFiles.on_directory_tree_file_selected\<close>: returns the event and the pane as
  the handler leaves them.
\<close>

definition on_directory_tree_file_selected :: "pane \<Rightarrow> file_selected \<Rightarrow> file_selected \<times> pane" where
  "on_directory_tree_file_selected s event =
     (stop event, post_message (Goto (LocalPath (Path (event_path event)))) s)"

text \<open>The messages a call of the handler adds to the posted ones.\<close>

definition emitted :: "pane \<Rightarrow> file_selected \<Rightarrow> message list" where
  "emitted s event =
     drop (length (posted s)) (posted (snd (on_directory_tree_file_selected s event)))"

subsection \<open>The states of the pane\<close>

text \<open>The trees mounted in the pane, and the identities of all widgets it has seen.\<close>

definition mounted_trees :: "pane \<Rightarrow> widget list" where
  "mounted_trees s = filter (\<lambda>w. isinstance w DirectoryTree) (children s)"

definition known_wids :: "pane \<Rightarrow> nat list" where
  "known_wids s = map wid (children s @ removed s)"

text \<open>
  The tree-mounted state: one tree is mounted, it is a filtered tree, and the widgets
  are distinct objects constructed before the next one.
\<close>

definition tree_mounted :: "pane \<Rightarrow> bool" where
  "tree_mounted s =
     (length (mounted_trees s) = 1
      \<and> list_all (\<lambda>w. cls w = FilteredDirectoryTree) (mounted_trees s)
      \<and> distinct (known_wids s)
      \<and> list_all (\<lambda>i. i < next_wid s) (known_wids s))"

text \<open>What happens to a pane, and a run of such steps; an exception ends the run.\<close>

datatype action = Chdir path | SetFocusWithin | FileSelected pathlike

fun step :: "pane \<Rightarrow> action \<Rightarrow> error + pane" where
  "step s (Chdir p) = chdir s p"
| "step s SetFocusWithin = set_focus_within s"
| "step s (FileSelected f) =
     Inr (snd (on_directory_tree_file_selected s \<lparr>event_path = f, stopped = False\<rparr>))"

fun run :: "pane \<Rightarrow> action list \<Rightarrow> error + pane" where
  "run s [] = Inr s"
| "run s (a # as) = (case step s a of Inl e \<Rightarrow> Inl e | Inr s' \<Rightarrow> run s' as)"

subsection \<open>A sample directory\<close>

text \<open>
  The entries of a directory \<^verbatim>\<open>/docs\<close>, used to run the definitions: two Markdown
  files, one of them hidden, a text file, a directory, a hidden directory, a socket, and
  an entry that may not be examined.
\<close>

definition docs :: "string \<Rightarrow> path" where
  "docs entry = PosixPath ''/'' [''docs'', entry]"

definition docs_fs :: filesystem where
  "docs_fs p =
     (if p = docs ''notes.md'' \<or> p = docs ''.draft.md'' \<or> p = docs ''todo.txt'' then RegularFile
      else if p = docs ''img'' \<or> p = docs ''.git'' then Directory
      else if p = docs ''sock'' then Special
      else if p = docs ''secret'' then Denied
      else Missing)"

text \<open>A check in the manner of \<^verbatim>\<open>maybe_markdown\<close>: the name ends in \<^verbatim>\<open>.md\<close>.\<close>

definition md_suffix :: "path \<Rightarrow> bool" where
  "md_suffix p = (drop (length (name p) - 3) (name p) = ''.md'')"

section \<open>Properties of the entry filter\<close>

lemma filter_cond_Inr:
  "fs p \<noteq> Denied \<Longrightarrow>
   filter_cond fs mm p =
     Inr (shown fs mm p,
          if fs p = RegularFile then [p] else [])"
  by (cases "fs p") (auto simp: filter_cond_def is_dir_def is_file_def shown_def)

lemma filter_cond_Inl:
  "fs p = Denied \<Longrightarrow> filter_cond fs mm p = Inl PermissionError"
  by (simp add: filter_cond_def is_dir_def is_file_def)

lemma filter_paths_traced_Inr:
  "\<forall>p \<in> set paths. fs p \<noteq> Denied \<Longrightarrow>
   filter_paths_traced fs mm paths =
     Inr (filter (shown fs mm) paths, filter (\<lambda>p. fs p = RegularFile) paths)"
  by (induction paths) (simp_all add: filter_cond_Inr)

lemma filter_paths_traced_Inl:
  "\<exists>p \<in> set paths. fs p = Denied \<Longrightarrow> filter_paths_traced fs mm paths = Inl PermissionError"
proof (induction paths)
  case Nil
  then show ?case by simp
next
  case (Cons p paths)
  show ?case
  proof (cases "fs p = Denied")
    case True
    then show ?thesis by (simp add: filter_cond_Inl)
  next
    case False
    with Cons.prems have "\<exists>q \<in> set paths. fs q = Denied" by auto
    with Cons.IH False show ?thesis by (simp add: filter_cond_Inr)
  qed
qed

lemma filter_paths_Inr_iff:
  "filter_paths fs mm paths = Inr kept \<longleftrightarrow>
   (\<forall>p \<in> set paths. fs p \<noteq> Denied) \<and> kept = filter (shown fs mm) paths"
proof (cases "\<forall>p \<in> set paths. fs p \<noteq> Denied")
  case True
  then show ?thesis
    by (auto simp: filter_paths_def filter_paths_traced_Inr)
next
  case False
  then have "\<exists>p \<in> set paths. fs p = Denied" by blast
  then have "filter_paths_traced fs mm paths = Inl PermissionError"
    by (rule filter_paths_traced_Inl)
  with False show ?thesis by (simp add: filter_paths_def)
qed

lemma filter_paths_returns:
  "\<forall>p \<in> set paths. fs p \<noteq> Denied \<Longrightarrow> \<exists>kept. filter_paths fs mm paths = Inr kept"
  by (simp add: filter_paths_Inr_iff)

text \<open>An entry that may not be examined ends the run of the filter.\<close>

lemma filter_paths_secret:
  "filter_paths docs_fs md_suffix [docs ''notes.md'', docs ''secret'', docs ''img'']
     = Inl PermissionError"
  by (simp add: filter_paths_def filter_cond_def is_dir_def is_file_def docs_fs_def
      md_suffix_def startswith_def docs_def name_def)

lemma docs_simps:
  "name (docs e) = e" "docs e = docs e' \<longleftrightarrow> e = e'"
  by (simp_all add: docs_def name_def)

text \<open>
  C1. Claim: every entry whose name begins with a dot is left out of the output of the
  filter, whatever its kind and whatever the Markdown check says of it. The filter does
  otherwise: a hidden regular file that passes the check is kept. Here the input is the
  single file \<^verbatim>\<open>/docs/.draft.md\<close>, and the output is that file.
\<close>

theorem filter_paths_keeps_hidden_markdown_file:
  "startswith (name (docs ''.draft.md'')) ''.''
   \<and> is_file docs_fs (docs ''.draft.md'') = Inr True
   \<and> md_suffix (docs ''.draft.md'')
   \<and> filter_paths docs_fs md_suffix [docs ''.draft.md''] = Inr [docs ''.draft.md'']"
  by (simp add: filter_paths_def filter_cond_def is_dir_def is_file_def docs_fs_def
      md_suffix_def startswith_def docs_simps)

text \<open>
  C2. Whenever the filter returns, an entry of the input is in the output if it is a
  directory whose name does not begin with a dot, or a regular file for which the
  Markdown check is true. In particular a directory that is not hidden is in the output
  whatever its name, and a regular file that is not hidden is in the output exactly
  when the check is true for it.
\<close>

theorem filter_paths_visibility_rule:
  assumes "filter_paths fs maybe_markdown paths = Inr kept" and "p \<in> set paths"
  shows "(is_dir fs p = Inr True \<and> \<not> startswith (name p) ''.''
            \<or> is_file fs p = Inr True \<and> maybe_markdown p \<longrightarrow> p \<in> set kept)
         \<and> (is_dir fs p = Inr True \<and> \<not> startswith (name p) ''.'' \<longrightarrow> p \<in> set kept)
         \<and> (is_file fs p = Inr True \<and> \<not> startswith (name p) ''.''
              \<longrightarrow> (p \<in> set kept \<longleftrightarrow> maybe_markdown p))"
proof -
  from assms(1) have kept: "kept = filter (shown fs maybe_markdown) paths"
    by (simp add: filter_paths_Inr_iff)
  have dir: "is_dir fs p = Inr True \<longleftrightarrow> fs p = Directory"
    by (cases "fs p") (simp_all add: is_dir_def)
  have isfile: "is_file fs p = Inr True \<longleftrightarrow> fs p = RegularFile"
    by (cases "fs p") (simp_all add: is_file_def)
  from assms(2) show ?thesis
    unfolding kept dir isfile by (auto simp: shown_def)
qed

theorem filter_paths_visibility_rule_witness:
  "filter_paths docs_fs md_suffix [docs ''notes.md'', docs ''img'', docs ''todo.txt'']
     = Inr [docs ''notes.md'', docs ''img'']
   \<and> is_dir docs_fs (docs ''img'') = Inr True \<and> \<not> startswith (name (docs ''img'')) ''.''
   \<and> docs ''img'' \<in> set [docs ''notes.md'', docs ''img'']
   \<and> is_file docs_fs (docs ''notes.md'') = Inr True \<and> md_suffix (docs ''notes.md'')
   \<and> is_file docs_fs (docs ''todo.txt'') = Inr True \<and> \<not> md_suffix (docs ''todo.txt'')
   \<and> docs ''todo.txt'' \<notin> set [docs ''notes.md'', docs ''img'']"
proof -
  have run: "filter_paths docs_fs md_suffix [docs ''notes.md'', docs ''img'', docs ''todo.txt'']
               = Inr [docs ''notes.md'', docs ''img'']"
    by (simp add: filter_paths_def filter_cond_def is_dir_def is_file_def docs_fs_def
        md_suffix_def startswith_def docs_simps)
  have img: "docs ''img'' \<in> set [docs ''notes.md'', docs ''img'', docs ''todo.txt'']"
    and todo: "docs ''todo.txt'' \<in> set [docs ''notes.md'', docs ''img'', docs ''todo.txt'']"
    by simp_all
  from filter_paths_visibility_rule [OF run img] filter_paths_visibility_rule [OF run todo] run
  show ?thesis
    by (simp add: is_dir_def is_file_def docs_fs_def md_suffix_def startswith_def docs_simps)
qed

text \<open>
  C6. The test of the name guards the directory branch of the condition only: whenever
  the filter returns, a regular file of the input whose name begins with a dot and for
  which the Markdown check is true is in the output. The sample directory has such a
  file.
\<close>

theorem filter_paths_hidden_file_unguarded:
  assumes "filter_paths fs maybe_markdown paths = Inr kept" and "p \<in> set paths"
    and "startswith (name p) ''.''" and "is_file fs p = Inr True" and "maybe_markdown p"
  shows "p \<in> set kept"
proof -
  from assms(4) have "fs p = RegularFile"
    by (cases "fs p") (simp_all add: is_file_def)
  with assms(1,2,5) show ?thesis
    by (simp add: filter_paths_Inr_iff shown_def)
qed

theorem filter_paths_hidden_file_unguarded_witness:
  "filter_paths docs_fs md_suffix [docs ''.git'', docs ''.draft.md''] = Inr [docs ''.draft.md'']
   \<and> startswith (name (docs ''.draft.md'')) ''.''
   \<and> is_file docs_fs (docs ''.draft.md'') = Inr True
   \<and> md_suffix (docs ''.draft.md'')
   \<and> docs ''.draft.md'' \<in> set [docs ''.draft.md'']"
proof -
  have run: "filter_paths docs_fs md_suffix [docs ''.git'', docs ''.draft.md'']
               = Inr [docs ''.draft.md'']"
    by (simp add: filter_paths_def filter_cond_def is_dir_def is_file_def docs_fs_def
        md_suffix_def startswith_def docs_simps)
  have mem: "docs ''.draft.md'' \<in> set [docs ''.git'', docs ''.draft.md'']" by simp
  have hidden: "startswith (name (docs ''.draft.md'')) ''.''"
    by (simp add: startswith_def docs_simps)
  have isfile: "is_file docs_fs (docs ''.draft.md'') = Inr True"
    by (simp add: is_file_def docs_fs_def docs_simps)
  have md: "md_suffix (docs ''.draft.md'')"
    by (simp add: md_suffix_def docs_simps)
  from filter_paths_hidden_file_unguarded [OF run mem hidden isfile md] run hidden isfile md
  show ?thesis by simp
qed

text \<open>
  C7. Whenever the filter returns, the Markdown check has not been called on any
  directory, and a directory whose name begins with a dot is not in the output, also
  when the check would be true for it.
\<close>

theorem filter_paths_never_checks_directories:
  assumes "filter_paths_traced fs maybe_markdown paths = Inr (kept, calls)"
    and "is_dir fs p = Inr True"
  shows "p \<notin> set calls \<and> (startswith (name p) ''.'' \<longrightarrow> p \<notin> set kept)"
proof -
  from assms(2) have dir: "fs p = Directory"
    by (cases "fs p") (simp_all add: is_dir_def)
  have ok: "\<forall>q \<in> set paths. fs q \<noteq> Denied"
  proof (rule ccontr)
    assume "\<not> (\<forall>q \<in> set paths. fs q \<noteq> Denied)"
    then have "\<exists>q \<in> set paths. fs q = Denied" by blast
    then have "filter_paths_traced fs maybe_markdown paths = Inl PermissionError"
      by (rule filter_paths_traced_Inl)
    with assms(1) show False by simp
  qed
  from assms(1) filter_paths_traced_Inr [OF ok, of maybe_markdown]
  have "kept = filter (shown fs maybe_markdown) paths"
    and "calls = filter (\<lambda>q. fs q = RegularFile) paths"
    by simp_all
  with dir show ?thesis by (simp add: shown_def)
qed

theorem filter_paths_never_checks_directories_witness:
  "filter_paths_traced docs_fs (\<lambda>p. True) [docs ''.git'', docs ''img'', docs ''notes.md'']
     = Inr ([docs ''img'', docs ''notes.md''], [docs ''notes.md''])
   \<and> is_dir docs_fs (docs ''.git'') = Inr True
   \<and> startswith (name (docs ''.git'')) ''.''
   \<and> docs ''.git'' \<notin> set [docs ''notes.md'']
   \<and> docs ''.git'' \<notin> set [docs ''img'', docs ''notes.md'']"
proof -
  have run: "filter_paths_traced docs_fs (\<lambda>p. True) [docs ''.git'', docs ''img'', docs ''notes.md'']
               = Inr ([docs ''img'', docs ''notes.md''], [docs ''notes.md''])"
    by (simp add: filter_cond_def is_dir_def is_file_def docs_fs_def startswith_def docs_simps)
  have dir: "is_dir docs_fs (docs ''.git'') = Inr True"
    by (simp add: is_dir_def docs_fs_def docs_simps)
  have hidden: "startswith (name (docs ''.git'')) ''.''"
    by (simp add: startswith_def docs_simps)
  from filter_paths_never_checks_directories [OF run dir] run dir hidden
  show ?thesis by simp
qed

text \<open>
  C8. Whenever the filter returns, its output is a subsequence of its input: every
  entry of the output is an entry of the input, and the entries keep their order.
\<close>

theorem filter_paths_subseq:
  assumes "filter_paths fs maybe_markdown paths = Inr kept"
  shows "subseq kept paths \<and> set kept \<subseteq> set paths"
proof -
  from assms have "kept = filter (shown fs maybe_markdown) paths"
    by (simp add: filter_paths_Inr_iff)
  then show ?thesis by simp
qed

theorem filter_paths_subseq_witness:
  "filter_paths docs_fs md_suffix
     [docs ''todo.txt'', docs ''img'', docs ''sock'', docs ''.git'', docs ''notes.md'', docs ''gone'']
     = Inr [docs ''img'', docs ''notes.md'']
   \<and> subseq [docs ''img'', docs ''notes.md'']
        [docs ''todo.txt'', docs ''img'', docs ''sock'', docs ''.git'', docs ''notes.md'', docs ''gone'']
   \<and> set [docs ''img'', docs ''notes.md'']
        \<subseteq> set [docs ''todo.txt'', docs ''img'', docs ''sock'', docs ''.git'', docs ''notes.md'',
                docs ''gone'']"
proof -
  have run: "filter_paths docs_fs md_suffix
      [docs ''todo.txt'', docs ''img'', docs ''sock'', docs ''.git'', docs ''notes.md'', docs ''gone'']
      = Inr [docs ''img'', docs ''notes.md'']"
    by (simp add: filter_paths_def filter_cond_def is_dir_def is_file_def docs_fs_def
        md_suffix_def startswith_def docs_simps)
  from filter_paths_subseq [OF run] run show ?thesis by simp
qed

section \<open>Properties of the pane\<close>

subsection \<open>The toolkit operations and the invariant\<close>

lemma children_simps:
  "children (mount w s) = children s @ [w]"
  "children (remove_widget w s) = filter (\<lambda>v. wid v \<noteq> wid w) (children s)"
  "children (snd (new_tree a s)) = children s"
  "children (focus w s) = children s"
  "children (post_message m s) = children s"
  by (simp_all add: mount_def remove_widget_def new_tree_def focus_def post_message_def)

lemma removed_simps:
  "removed (mount w s) = removed s"
  "removed (remove_widget w s) = removed s @ [w]"
  "removed (snd (new_tree a s)) = removed s"
  "removed (focus w s) = removed s"
  "removed (post_message m s) = removed s"
  by (simp_all add: mount_def remove_widget_def new_tree_def focus_def post_message_def)

lemma next_wid_simps:
  "next_wid (mount w s) = next_wid s"
  "next_wid (remove_widget w s) = next_wid s"
  "next_wid (snd (new_tree a s)) = Suc (next_wid s)"
  "next_wid (focus w s) = next_wid s"
  "next_wid (post_message m s) = next_wid s"
  by (simp_all add: mount_def remove_widget_def new_tree_def focus_def post_message_def)

lemma fst_new_tree:
  "fst (new_tree a s) = \<lparr>wid = next_wid s, cls = FilteredDirectoryTree, tree_path = a\<rparr>"
  by (simp add: new_tree_def)

lemma tree_mounted_query:
  assumes "tree_mounted s"
  obtains t where "mounted_trees s = [t]" and "cls t = FilteredDirectoryTree"
    and "query_one FilteredDirectoryTree s = Inr t" and "query_one DirectoryTree s = Inr t"
    and "t \<in> set (children s)"
proof -
  from assms obtain t where t: "mounted_trees s = [t]"
    by (auto simp: tree_mounted_def length_Suc_conv)
  with assms have c: "cls t = FilteredDirectoryTree"
    by (simp add: tree_mounted_def)
  have "filter (\<lambda>w. isinstance w FilteredDirectoryTree) (children s)
      = filter (\<lambda>w. isinstance w FilteredDirectoryTree) (mounted_trees s)"
    unfolding mounted_trees_def filter_filter
    by (rule filter_cong) (auto simp: isinstance_def)
  with t c have q1: "query_one FilteredDirectoryTree s = Inr t"
    by (simp add: query_one_def isinstance_def)
  from t have q2: "query_one DirectoryTree s = Inr t"
    by (simp add: query_one_def mounted_trees_def)
  from t have "t \<in> set (mounted_trees s)" by simp
  then have "t \<in> set (children s)" by (simp add: mounted_trees_def)
  with t c q1 q2 that show thesis by blast
qed

lemma chdir_unfold:
  "query_one FilteredDirectoryTree s = Inr old \<Longrightarrow>
   chdir s p = Inr (mount (fst (new_tree (PathObj p) (remove_widget old s)))
                      (snd (new_tree (PathObj p) (remove_widget old s))))"
  by (simp add: chdir_def split: prod.splits)

lemma chdir_tree_mounted:
  assumes "tree_mounted s"
  obtains old tree s' where "mounted_trees s = [old]" 
    and "query_one FilteredDirectoryTree s = Inr old"
    and "chdir s p = Inr s'"
    and "children s' = filter (\<lambda>v. wid v \<noteq> wid old) (children s) @ [tree]"
    and "removed s' = removed s @ [old]"
    and "tree = \<lparr>wid = next_wid s, cls = FilteredDirectoryTree, tree_path = PathObj p\<rparr>"
    and "mounted_trees s' = [tree]"
    and "tree_mounted s'"
proof -
  from assms obtain old where old: "mounted_trees s = [old]" "cls old = FilteredDirectoryTree"
    "query_one FilteredDirectoryTree s = Inr old" "old \<in> set (children s)"
    by (rule tree_mounted_query)
  define tree where "tree = \<lparr>wid = next_wid s, cls = FilteredDirectoryTree, tree_path = PathObj p\<rparr>"
  define s' where "s' = mount tree (snd (new_tree (PathObj p) (remove_widget old s)))"
  have ch: "chdir s p = Inr s'"
    by (simp add: chdir_unfold [OF old(3)] s'_def tree_def fst_new_tree next_wid_simps)
  have c: "children s' = filter (\<lambda>v. wid v \<noteq> wid old) (children s) @ [tree]"
    by (simp add: s'_def children_simps)
  have r: "removed s' = removed s @ [old]"
    by (simp add: s'_def removed_simps)
  have n: "next_wid s' = Suc (next_wid s)"
    by (simp add: s'_def next_wid_simps)
  have "filter (\<lambda>w. isinstance w DirectoryTree) (filter (\<lambda>v. wid v \<noteq> wid old) (children s))
      = filter (\<lambda>v. wid v \<noteq> wid old) (mounted_trees s)"
    unfolding mounted_trees_def filter_filter by (rule filter_cong) auto
  then have m: "mounted_trees s' = [tree]"
    by (simp add: mounted_trees_def [of s'] c old(1)) (simp add: tree_def isinstance_def)
  from assms have d: "distinct (known_wids s)" and b: "list_all (\<lambda>i. i < next_wid s) (known_wids s)"
    by (simp_all add: tree_mounted_def)
  let ?rest = "filter (\<lambda>v. wid v \<noteq> wid old) (children s)"
  have kw: "known_wids s' = map wid ?rest @ next_wid s # map wid (removed s) @ [wid old]"
    by (simp add: known_wids_def c r tree_def)
  have sub: "set (map wid ?rest) \<subseteq> set (map wid (children s))"
    by auto
  have old_rest: "wid old \<notin> set (map wid ?rest)"
    by auto
  from old(4) have old_known: "wid old \<in> set (map wid (children s))"
    by simp
  from d have dr: "distinct (map wid (removed s))"
    and disj: "set (map wid (children s)) \<inter> set (map wid (removed s)) = {}"
    by (simp_all add: known_wids_def)
  from d have dc: "distinct (map wid ?rest)"
    by (simp add: known_wids_def distinct_map_filter)
  from disj old_known have old_removed: "wid old \<notin> set (map wid (removed s))"
    by blast
  from disj sub have disj': "set (map wid ?rest) \<inter> set (map wid (removed s)) = {}"
    by blast
  from b have lt: "\<And>i. i \<in> set (map wid (children s)) \<or> i \<in> set (map wid (removed s)) \<Longrightarrow> i < next_wid s"
    by (auto simp: known_wids_def list_all_iff)
  from lt have fresh_c: "next_wid s \<notin> set (map wid (children s))"
    and fresh_r: "next_wid s \<notin> set (map wid (removed s))"
    by blast+
  from fresh_c sub have fresh_rest: "next_wid s \<notin> set (map wid ?rest)"
    by blast
  from fresh_c old_known have old_ne: "next_wid s \<noteq> wid old"
    by auto
  have "distinct (known_wids s')"
    unfolding kw distinct_append distinct.simps
    using dc dr disj' old_rest old_removed fresh_rest fresh_r old_ne
    by (simp only: set_append set_simps) blast
  moreover have "list_all (\<lambda>i. i < next_wid s') (known_wids s')"
    unfolding kw n list_all_iff
    using lt sub old_known by (auto simp: less_Suc_eq)
  ultimately have "tree_mounted s'"
    using m by (simp add: tree_mounted_def tree_def)
  with old ch c r m tree_def that show thesis by blast
qed


subsection \<open>Creation, and the states the pane reaches\<close>

lemma create_eq:
  "create env =
     \<lparr>title = ''Local'',
      children = [\<lparr>wid = 0, cls = FilteredDirectoryTree,
                   tree_path = Str (or_default (getenv env ''HOME'') ''.'')\<rparr>],
      removed = [], next_wid = Suc 0, focused = None, posted = []\<rparr>"
  by (simp add: create_def compose_def new_tree_def init_def mount_def)

lemma create_tree_mounted: "tree_mounted (create env)"
  by (simp add: create_eq tree_mounted_def mounted_trees_def known_wids_def isinstance_def)

lemma set_focus_within_tree_mounted:
  assumes "tree_mounted s"
  obtains tree where "mounted_trees s = [tree]" and "set_focus_within s = Inr (focus tree s)"
    and "tree_mounted (focus tree s)"
proof -
  from assms obtain tree where t: "mounted_trees s = [tree]" "query_one DirectoryTree s = Inr tree"
    by (rule tree_mounted_query)
  from t(2) have "set_focus_within s = Inr (focus tree s)"
    by (simp add: set_focus_within_def)
  moreover from assms have "tree_mounted (focus tree s)"
    by (simp add: tree_mounted_def mounted_trees_def known_wids_def children_simps
        removed_simps next_wid_simps)
  ultimately show thesis using t(1) that by blast
qed

lemma file_selected_tree_mounted:
  "tree_mounted s \<Longrightarrow> tree_mounted (snd (on_directory_tree_file_selected s event))"
  by (simp add: on_directory_tree_file_selected_def tree_mounted_def mounted_trees_def
      known_wids_def children_simps removed_simps next_wid_simps)

lemma step_tree_mounted:
  assumes "tree_mounted s"
  shows "\<exists>s'. step s a = Inr s' \<and> tree_mounted s'"
proof (cases a)
  case (Chdir p)
  from assms obtain s' where "chdir s p = Inr s'" "tree_mounted s'"
    by (rule chdir_tree_mounted)
  with Chdir show ?thesis by simp
next
  case SetFocusWithin
  from assms obtain tree where "set_focus_within s = Inr (focus tree s)"
    "tree_mounted (focus tree s)"
    by (rule set_focus_within_tree_mounted)
  with SetFocusWithin show ?thesis by simp
next
  case (FileSelected f)
  with assms show ?thesis by (simp add: file_selected_tree_mounted)
qed

lemma run_tree_mounted:
  "tree_mounted s \<Longrightarrow> \<exists>s'. run s as = Inr s' \<and> tree_mounted s'"
proof (induction as arbitrary: s)
  case Nil
  then show ?case by simp
next
  case (Cons a as)
  from step_tree_mounted [OF Cons.prems, of a]
  obtain s1 where s1: "step s a = Inr s1" "tree_mounted s1" by blast
  from Cons.IH [OF s1(2)] s1(1) show ?case by simp
qed

subsection \<open>The file-selection handler\<close>

text \<open>
  C3. For every file-selection event, the handler marks the event as stopped and posts
  exactly one message: a \<^verbatim>\<open>Goto\<close> whose location is the path of the selected file.
  Selecting \<^verbatim>\<open>/docs/notes.md\<close> posts one request for \<^verbatim>\<open>/docs/notes.md\<close>, whether
  the event carries the path as a string or as a path object.
\<close>

theorem file_selected_stops_and_posts_goto:
  "stopped (fst (on_directory_tree_file_selected s event))
   \<and> posted (snd (on_directory_tree_file_selected s event))
       = posted s @ [Goto (LocalPath (Path (event_path event)))]
   \<and> emitted s event = [Goto (LocalPath (Path (event_path event)))]"
  by (simp add: on_directory_tree_file_selected_def emitted_def stop_def post_message_def)

theorem file_selected_stops_and_posts_goto_witness:
  "stopped (fst (on_directory_tree_file_selected (create Map.empty)
      \<lparr>event_path = Str ''/docs/notes.md'', stopped = False\<rparr>))
   \<and> emitted (create Map.empty) \<lparr>event_path = Str ''/docs/notes.md'', stopped = False\<rparr>
       = [Goto (LocalPath (PosixPath ''/'' [''docs'', ''notes.md'']))]
   \<and> emitted (create Map.empty)
        \<lparr>event_path = PathObj (PosixPath ''/'' [''docs'', ''notes.md'']), stopped = False\<rparr>
       = [Goto (LocalPath (PosixPath ''/'' [''docs'', ''notes.md'']))]"
  using file_selected_stops_and_posts_goto [of "create Map.empty"
      "\<lparr>event_path = Str ''/docs/notes.md'', stopped = False\<rparr>"]
    file_selected_stops_and_posts_goto [of "create Map.empty"
      "\<lparr>event_path = PathObj (PosixPath ''/'' [''docs'', ''notes.md'']), stopped = False\<rparr>"]
  by (simp add: splitroot_def)

text \<open>
  C10. Every message the file-selection handler emits carries a local path as its
  location, never a URL, although a \<^verbatim>\<open>Goto\<close> may hold either. This holds also for
  an event whose path string looks like a URL: \<^verbatim>\<open>Path(...)\<close> makes a path of it.
\<close>

theorem goto_location_is_local_path:
  assumes "m \<in> set (emitted s event)"
  shows "(\<exists>p. location m = LocalPath p) \<and> (\<forall>u. location m \<noteq> RemoteURL u)"
proof -
  have "emitted s event = [Goto (LocalPath (Path (event_path event)))]"
    by (simp add: on_directory_tree_file_selected_def emitted_def post_message_def)
  with assms show ?thesis by simp
qed

theorem goto_location_is_local_path_witness:
  "Goto (LocalPath (PosixPath [] [''https:'', ''example.com'', ''readme.md'']))
     \<in> set (emitted (create Map.empty)
          \<lparr>event_path = Str ''https://example.com/readme.md'', stopped = False\<rparr>)
   \<and> (\<exists>p. location (Goto (LocalPath (PosixPath [] [''https:'', ''example.com'', ''readme.md'']))) = LocalPath p)
   \<and> (\<forall>u. location (Goto (LocalPath (PosixPath [] [''https:'', ''example.com'', ''readme.md''])))
          \<noteq> RemoteURL u)"
proof -
  have mem: "Goto (LocalPath (PosixPath [] [''https:'', ''example.com'', ''readme.md'']))
     \<in> set (emitted (create Map.empty)
          \<lparr>event_path = Str ''https://example.com/readme.md'', stopped = False\<rparr>)"
    by (simp add: on_directory_tree_file_selected_def emitted_def post_message_def splitroot_def)
  from goto_location_is_local_path [OF mem] mem show ?thesis by simp
qed

subsection \<open>Changing directory, creation and focus\<close>

text \<open>
  C4. In the tree-mounted state (by \<open>run_tree_mounted\<close> and \<open>create_tree_mounted\<close>
  every state the pane reaches from its creation through its own operations), and for
  every path, \<^verbatim>\<open>chdir\<close> returns; afterwards the tree that was mounted is no longer
  mounted and is among the removed widgets, a tree that did not exist before, a
  filtered tree constructed with the given path, is mounted, and it is the one tree
  mounted in the pane. The pane is in the tree-mounted state again.
\<close>

theorem chdir_replaces_tree:
  assumes "tree_mounted s"
  shows "\<exists>old tree s'.
           mounted_trees s = [old] \<and> chdir s p = Inr s'
           \<and> old \<notin> set (children s') \<and> old \<in> set (removed s')
           \<and> wid tree \<notin> set (known_wids s)
           \<and> cls tree = FilteredDirectoryTree \<and> tree_path tree = PathObj p
           \<and> tree \<in> set (children s')
           \<and> mounted_trees s' = [tree] \<and> length (mounted_trees s') = 1
           \<and> tree_mounted s'"
proof -
  from assms obtain old tree s' where
    old: "mounted_trees s = [old]" and ch: "chdir s p = Inr s'"
    and c: "children s' = filter (\<lambda>v. wid v \<noteq> wid old) (children s) @ [tree]"
    and r: "removed s' = removed s @ [old]"
    and tree: "tree = \<lparr>wid = next_wid s, cls = FilteredDirectoryTree, tree_path = PathObj p\<rparr>"
    and m: "mounted_trees s' = [tree]" and tm: "tree_mounted s'"
    by (rule chdir_tree_mounted)
  from assms have "list_all (\<lambda>i. i < next_wid s) (known_wids s)"
    by (simp add: tree_mounted_def)
  then have fresh: "next_wid s \<notin> set (known_wids s)"
    by (auto simp: list_all_iff)
  from old have "old \<in> set (mounted_trees s)" by simp
  then have "old \<in> set (children s)" by (simp add: mounted_trees_def)
  then have "wid old \<in> set (known_wids s)" by (simp add: known_wids_def)
  with fresh have "wid old \<noteq> next_wid s" by auto
  then have "old \<noteq> tree" by (auto simp: tree)
  then have gone: "old \<notin> set (children s')" by (simp add: c)
  from fresh have "wid tree \<notin> set (known_wids s)" by (simp add: tree)
  with old ch gone r m tm show ?thesis
    by (intro exI [of _ old] exI [of _ tree] exI [of _ s']) (simp add: c, simp add: tree)
qed

theorem chdir_replaces_tree_witness:
  "tree_mounted (create [''HOME'' \<mapsto> ''/home/dave''])
   \<and> mounted_trees (create [''HOME'' \<mapsto> ''/home/dave''])
       = [\<lparr>wid = 0, cls = FilteredDirectoryTree, tree_path = Str ''/home/dave''\<rparr>]
   \<and> chdir (create [''HOME'' \<mapsto> ''/home/dave'']) (PosixPath ''/'' [''docs''])
       = Inr \<lparr>title = ''Local'',
              children = [\<lparr>wid = 1, cls = FilteredDirectoryTree,
                           tree_path = PathObj (PosixPath ''/'' [''docs''])\<rparr>],
              removed = [\<lparr>wid = 0, cls = FilteredDirectoryTree, tree_path = Str ''/home/dave''\<rparr>],
              next_wid = 2, focused = None, posted = []\<rparr>
   \<and> (\<exists>old tree s'.
         mounted_trees (create [''HOME'' \<mapsto> ''/home/dave'']) = [old]
         \<and> chdir (create [''HOME'' \<mapsto> ''/home/dave'']) (PosixPath ''/'' [''docs'']) = Inr s'
         \<and> old \<notin> set (children s') \<and> old \<in> set (removed s')
         \<and> wid tree \<notin> set (known_wids (create [''HOME'' \<mapsto> ''/home/dave'']))
         \<and> cls tree = FilteredDirectoryTree
         \<and> tree_path tree = PathObj (PosixPath ''/'' [''docs''])
         \<and> tree \<in> set (children s')
         \<and> mounted_trees s' = [tree] \<and> length (mounted_trees s') = 1
         \<and> tree_mounted s')"
proof -
  have tm: "tree_mounted (create [''HOME'' \<mapsto> ''/home/dave''])"
    by (simp add: create_eq tree_mounted_def mounted_trees_def known_wids_def isinstance_def)
  have mt: "mounted_trees (create [''HOME'' \<mapsto> ''/home/dave''])
       = [\<lparr>wid = 0, cls = FilteredDirectoryTree, tree_path = Str ''/home/dave''\<rparr>]"
    by (simp add: create_eq mounted_trees_def isinstance_def getenv_def or_default_def)
  have ch: "chdir (create [''HOME'' \<mapsto> ''/home/dave'']) (PosixPath ''/'' [''docs''])
       = Inr \<lparr>title = ''Local'',
              children = [\<lparr>wid = 1, cls = FilteredDirectoryTree,
                           tree_path = PathObj (PosixPath ''/'' [''docs''])\<rparr>],
              removed = [\<lparr>wid = 0, cls = FilteredDirectoryTree, tree_path = Str ''/home/dave''\<rparr>],
              next_wid = 2, focused = None, posted = []\<rparr>"
    by (simp add: create_eq chdir_def query_one_def isinstance_def getenv_def or_default_def
        new_tree_def remove_widget_def mount_def)
  from chdir_replaces_tree [OF tm, of "PosixPath ''/'' [''docs'']"] tm mt ch
  show ?thesis by simp
qed

text \<open>
  C5. Claim: on creation the pane mounts one filtered tree, rooted at the value of
  \<^verbatim>\<open>HOME\<close> when that variable is set and at \<^verbatim>\<open>.\<close> when it is unset. The claim
  fails when \<^verbatim>\<open>HOME\<close> is set to the empty string: \<^verbatim>\<open>getenv("HOME") or "."\<close> is
  then \<^verbatim>\<open>.\<close>, not the value of the variable.
\<close>

theorem create_empty_HOME_counterexample:
  "getenv [''HOME'' \<mapsto> ''''] ''HOME'' = Some ''''
   \<and> map tree_path (mounted_trees (create [''HOME'' \<mapsto> ''''])) = [Str ''.'']
   \<and> map tree_path (mounted_trees (create [''HOME'' \<mapsto> ''''])) \<noteq> [Str '''']"
  by (simp add: create_eq mounted_trees_def isinstance_def getenv_def or_default_def)

text \<open>
  C5, as amended. On creation the pane mounts exactly one filtered tree. Its root is
  the value of \<^verbatim>\<open>HOME\<close> when that variable is set to a string that is not empty, and
  \<^verbatim>\<open>.\<close> when the variable is unset or empty.
\<close>

theorem create_mounts_home_tree:
  "\<exists>tree. children (create env) = [tree] \<and> mounted_trees (create env) = [tree]
     \<and> cls tree = FilteredDirectoryTree
     \<and> (\<forall>home. getenv env ''HOME'' = Some home \<and> home \<noteq> [] \<longrightarrow> tree_path tree = Str home)
     \<and> (getenv env ''HOME'' = None \<or> getenv env ''HOME'' = Some [] \<longrightarrow> tree_path tree = Str ''.'')"
  by (auto simp: create_eq mounted_trees_def isinstance_def or_default_def)

theorem create_mounts_home_tree_witness:
  "getenv [''HOME'' \<mapsto> ''/home/dave''] ''HOME'' = Some ''/home/dave''
   \<and> children (create [''HOME'' \<mapsto> ''/home/dave''])
       = [\<lparr>wid = 0, cls = FilteredDirectoryTree, tree_path = Str ''/home/dave''\<rparr>]
   \<and> getenv Map.empty ''HOME'' = None
   \<and> children (create Map.empty)
       = [\<lparr>wid = 0, cls = FilteredDirectoryTree, tree_path = Str ''.''\<rparr>]"
proof -
  have set: "getenv [''HOME'' \<mapsto> ''/home/dave''] ''HOME'' = Some ''/home/dave''"
    and unset: "getenv Map.empty ''HOME'' = None"
    by (simp_all add: getenv_def)
  from create_mounts_home_tree [of "[''HOME'' \<mapsto> ''/home/dave'']"] set
  obtain t where t: "children (create [''HOME'' \<mapsto> ''/home/dave'']) = [t]"
    "cls t = FilteredDirectoryTree" "tree_path t = Str ''/home/dave''"
    by auto
  from create_mounts_home_tree [of Map.empty] unset
  obtain u where u: "children (create Map.empty) = [u]"
    "cls u = FilteredDirectoryTree" "tree_path u = Str ''.''"
    by auto
  have "wid t = 0" using t(1) by (auto simp: create_eq)
  moreover have "wid u = 0" using u(1) by (auto simp: create_eq)
  ultimately show ?thesis using t u set unset by simp
qed

text \<open>
  C9. In the tree-mounted state \<^verbatim>\<open>set_focus_within\<close> returns and gives the focus to
  the tree that is mounted in the pane; the focused widget is none of the widgets that
  have been removed from the pane. After a \<^verbatim>\<open>chdir\<close> the focus goes to the new tree,
  not to the one that \<^verbatim>\<open>chdir\<close> removed.
\<close>

theorem set_focus_within_targets_mounted_tree:
  assumes "tree_mounted s"
  shows "\<exists>tree s'.
           mounted_trees s = [tree] \<and> set_focus_within s = Inr s'
           \<and> focused s' = Some (wid tree)
           \<and> children s' = children s \<and> tree \<in> set (children s')
           \<and> (\<forall>w \<in> set (removed s'). focused s' \<noteq> Some (wid w))"
proof -
  from assms obtain tree where t: "mounted_trees s = [tree]"
    and f: "set_focus_within s = Inr (focus tree s)"
    by (rule set_focus_within_tree_mounted)
  from t have "tree \<in> set (mounted_trees s)" by simp
  then have mem: "tree \<in> set (children s)" by (simp add: mounted_trees_def)
  from assms have "distinct (known_wids s)" by (simp add: tree_mounted_def)
  with mem have "\<forall>w \<in> set (removed s). wid tree \<noteq> wid w"
    by (auto simp: known_wids_def)
  with t f mem show ?thesis
    by (intro exI [of _ tree] exI [of _ "focus tree s"]) (simp add: focus_def)
qed

theorem set_focus_within_targets_mounted_tree_witness:
  "chdir (create Map.empty) (PosixPath ''/'' [''docs''])
     = Inr \<lparr>title = ''Local'',
            children = [\<lparr>wid = 1, cls = FilteredDirectoryTree,
                         tree_path = PathObj (PosixPath ''/'' [''docs''])\<rparr>],
            removed = [\<lparr>wid = 0, cls = FilteredDirectoryTree, tree_path = Str ''.''\<rparr>],
            next_wid = 2, focused = None, posted = []\<rparr>
   \<and> tree_mounted \<lparr>title = ''Local'',
            children = [\<lparr>wid = 1, cls = FilteredDirectoryTree,
                         tree_path = PathObj (PosixPath ''/'' [''docs''])\<rparr>],
            removed = [\<lparr>wid = 0, cls = FilteredDirectoryTree, tree_path = Str ''.''\<rparr>],
            next_wid = 2, focused = None, posted = []\<rparr>
   \<and> set_focus_within \<lparr>title = ''Local'',
            children = [\<lparr>wid = 1, cls = FilteredDirectoryTree,
                         tree_path = PathObj (PosixPath ''/'' [''docs''])\<rparr>],
            removed = [\<lparr>wid = 0, cls = FilteredDirectoryTree, tree_path = Str ''.''\<rparr>],
            next_wid = 2, focused = None, posted = []\<rparr>
     = Inr \<lparr>title = ''Local'',
            children = [\<lparr>wid = 1, cls = FilteredDirectoryTree,
                         tree_path = PathObj (PosixPath ''/'' [''docs''])\<rparr>],
            removed = [\<lparr>wid = 0, cls = FilteredDirectoryTree, tree_path = Str ''.''\<rparr>],
            next_wid = 2, focused = Some 1, posted = []\<rparr>"
proof -
  let ?s = "\<lparr>title = ''Local'',
            children = [\<lparr>wid = 1, cls = FilteredDirectoryTree,
                         tree_path = PathObj (PosixPath ''/'' [''docs''])\<rparr>],
            removed = [\<lparr>wid = 0, cls = FilteredDirectoryTree, tree_path = Str ''.''\<rparr>],
            next_wid = 2, focused = None, posted = []\<rparr>"
  have ch: "chdir (create Map.empty) (PosixPath ''/'' [''docs'']) = Inr ?s"
    by (simp add: create_eq chdir_def query_one_def isinstance_def getenv_def or_default_def
        new_tree_def remove_widget_def mount_def)
  have tm: "tree_mounted ?s"
    by (simp add: tree_mounted_def mounted_trees_def known_wids_def isinstance_def)
  have sf: "set_focus_within ?s = Inr (?s\<lparr>focused := Some 1\<rparr>)"
    by (simp add: set_focus_within_def query_one_def isinstance_def focus_def)
  from set_focus_within_targets_mounted_tree [OF tm] ch tm sf
  show ?thesis by simp
qed

section \<open>Further properties\<close>

text \<open>
  X1. The filter raises \<^verbatim>\<open>PermissionError\<close> exactly when an entry of its input may not
  be examined; otherwise it returns the entries that are directories with a name not
  beginning with a dot or regular files passing the Markdown check, in the order of the
  input.
\<close>

theorem filter_paths_total:
  "filter_paths fs maybe_markdown paths =
     (if \<exists>p \<in> set paths. fs p = Denied then Inl PermissionError
      else Inr (filter (\<lambda>p. \<not> startswith (name p) ''.'' \<and> fs p = Directory
                            \<or> fs p = RegularFile \<and> maybe_markdown p) paths))"
proof (cases "\<exists>p \<in> set paths. fs p = Denied")
  case True
  then show ?thesis
    by (simp add: filter_paths_def filter_paths_traced_Inl)
next
  case False
  then have "\<forall>p \<in> set paths. fs p \<noteq> Denied" by blast
  then have "filter_paths_traced fs maybe_markdown paths =
      Inr (filter (shown fs maybe_markdown) paths, filter (\<lambda>p. fs p = RegularFile) paths)"
    by (rule filter_paths_traced_Inr)
  moreover have "shown fs maybe_markdown =
      (\<lambda>p. \<not> startswith (name p) ''.'' \<and> fs p = Directory \<or> fs p = RegularFile \<and> maybe_markdown p)"
    by (rule ext) (simp add: shown_def)
  ultimately show ?thesis using False
    by (simp add: filter_paths_def)
qed

text \<open>
  X2. From its creation on, every sequence of \<^verbatim>\<open>chdir\<close>, \<^verbatim>\<open>set_focus_within\<close> and
  file-selection steps runs to its end without \<^verbatim>\<open>NoMatches\<close>, and leaves the pane in
  the tree-mounted state: exactly one tree is mounted after every step.
\<close>

theorem run_from_create_tree_mounted:
  "\<exists>s. run (create env) actions = Inr s \<and> tree_mounted s \<and> length (mounted_trees s) = 1"
proof -
  from run_tree_mounted [OF create_tree_mounted, of env actions]
  obtain s where "run (create env) actions = Inr s" "tree_mounted s" by blast
  then show ?thesis by (auto simp: tree_mounted_def)
qed

end
